theory Spec2Isabelle
  imports Main
begin

section \<open>Python values\<close>

text \<open>
  The two modules work on dynamically typed values: \<open>None\<close>, booleans, integers,
  strings, lists and dictionaries. Floats, tuples and user objects do not occur in the
  code paths modelled here. Characters are ASCII.

  A string carries the one fact about object identity that the code observes:
  \<open>_generate_tasks\<close> and \<open>run\<close> compare the controller type with
  \<open>is "composite"\<close>. CPython keeps a single shared object for every interned string,
  and the identifier-like literals of a module are interned, so \<open>x is "composite"\<close>
  holds exactly when \<open>x\<close> is that shared object. A string built while the program runs
  (parsed from a configuration file, joined, formatted) is an object of its own, with
  the same characters or not.
\<close>

datatype strobj = Interned | Heap

datatype pyval =
    PNone
  | PBool bool
  | PInt int
  | PStr strobj string
  | PList "pyval list"
  | PDict "(string \<times> pyval) list"

text \<open>A dictionary with string keys, in insertion order; keys are pairwise different.\<close>

type_synonym dict = "(string \<times> pyval) list"

text \<open>A string literal of the source text.\<close>

definition lit :: "string \<Rightarrow> pyval" where
  "lit s = PStr Interned s"

text \<open>\<open>x is "..."\<close> against a literal of the source text.\<close>

definition is_literal :: "pyval \<Rightarrow> string \<Rightarrow> bool" where
  "is_literal x s = (x = PStr Interned s)"

text \<open>The characters of a string value (equality \<open>==\<close> of strings compares these).\<close>

fun chars :: "pyval \<Rightarrow> string option" where
  "chars (PStr i s) = Some s"
| "chars v = None"

text \<open>The exceptions, those with a message carrying it without its quotation marks.\<close>

datatype error =
    InvalidRunConfigurationException string
  | Exception string
  | KeyError string
  | IndexError
  | TypeError
  | AttributeError
  | ValueError
  | DuplicateOptionError string
  | SchemaError
  | FileNotFoundError
  | OSError

text \<open>\<open>isinstance(v, str)\<close>, \<open>isinstance(v, list)\<close>, \<open>isinstance(v, dict)\<close>, and
  \<open>isinstance(v, int)\<close>, which holds of booleans too.\<close>

fun is_str :: "pyval \<Rightarrow> bool" where
  "is_str (PStr i s) = True"
| "is_str v = False"

fun is_list :: "pyval \<Rightarrow> bool" where
  "is_list (PList xs) = True"
| "is_list v = False"

fun is_dict :: "pyval \<Rightarrow> bool" where
  "is_dict (PDict d) = True"
| "is_dict v = False"

fun is_int :: "pyval \<Rightarrow> bool" where
  "is_int (PInt n) = True"
| "is_int (PBool b) = True"
| "is_int v = False"

text \<open>\<open>k in d\<close>, \<open>d[k]\<close>, \<open>d.get(k, default)\<close> and \<open>d[k] = v\<close>.\<close>

definition has_key :: "(string \<times> 'v) list \<Rightarrow> string \<Rightarrow> bool" where
  "has_key d k = (map_of d k \<noteq> None)"

definition getitem :: "(string \<times> 'v) list \<Rightarrow> string \<Rightarrow> error + 'v" where
  "getitem d k = (case map_of d k of None \<Rightarrow> Inl (KeyError k) | Some v \<Rightarrow> Inr v)"

definition dict_get :: "(string \<times> 'v) list \<Rightarrow> string \<Rightarrow> 'v \<Rightarrow> 'v" where
  "dict_get d k dflt = (case map_of d k of None \<Rightarrow> dflt | Some v \<Rightarrow> v)"

fun setitem :: "(string \<times> 'v) list \<Rightarrow> string \<Rightarrow> 'v \<Rightarrow> (string \<times> 'v) list" where
  "setitem [] k v = [(k, v)]"
| "setitem (p # ps) k v = (if fst p = k then (k, v) # ps else p # setitem ps k v)"

text \<open>\<open>xs + v\<close> with a list on the left: a \<open>TypeError\<close> unless \<open>v\<close> is a list.\<close>

fun list_add :: "pyval list \<Rightarrow> pyval \<Rightarrow> error + pyval list" where
  "list_add xs (PList ys) = Inr (xs @ ys)"
| "list_add xs v = Inl TypeError"

text \<open>\<open>str.upper\<close> and \<open>str.lower\<close> on ASCII text.\<close>

definition upper_char :: "char \<Rightarrow> char" where
  "upper_char c =
     (case map_of (zip ''abcdefghijklmnopqrstuvwxyz'' ''ABCDEFGHIJKLMNOPQRSTUVWXYZ'') c of
        Some u \<Rightarrow> u | None \<Rightarrow> c)"

definition lower_char :: "char \<Rightarrow> char" where
  "lower_char c =
     (case map_of (zip ''ABCDEFGHIJKLMNOPQRSTUVWXYZ'' ''abcdefghijklmnopqrstuvwxyz'') c of
        Some l \<Rightarrow> l | None \<Rightarrow> c)"

definition upper :: "string \<Rightarrow> string" where
  "upper s = map upper_char s"

definition lower :: "string \<Rightarrow> string" where
  "lower s = map lower_char s"

text \<open>\<open>v.upper()\<close>: an \<open>AttributeError\<close> unless \<open>v\<close> is a string; the result is a new
  string object.\<close>

fun py_upper :: "pyval \<Rightarrow> error + pyval" where
  "py_upper (PStr i s) = Inr (PStr Heap (upper s))"
| "py_upper v = Inl AttributeError"

section \<open>benchmark\_run.py: the run\<close>

text \<open>\<open>uuid4()\<close> draws from a supply of pairwise different identifiers: the supply is
  the number of identifiers drawn so far, and the \<open>n\<close>-th one is \<open>Uuid n\<close>.\<close>

datatype uuid = Uuid nat

definition uuid4 :: "nat \<Rightarrow> uuid \<times> nat" where
  "uuid4 n = (Uuid n, Suc n)"

text \<open>The fields of a constructed \<open>SpecJBBRun\<close>. After \<open>__set_java__\<close> and
  \<open>__set_topology__\<close> the fields \<open>java\<close>, \<open>controller\<close>, \<open>backends\<close> and \<open>injectors\<close>
  are dictionaries.\<close>

record SpecJBBRun =
  jar :: pyval
  props :: pyval
  props_file :: pyval
  run_id :: uuid
  java :: dict
  controller :: dict
  backends :: dict
  injectors :: dict

text \<open>\<open>_full_options\<close>, each subscript, \<open>+\<close> and method call in the order Python
  evaluates them.\<close>

definition full_options :: "SpecJBBRun \<Rightarrow> dict \<Rightarrow> error + pyval list" where
  "full_options self options_dict =
     (case getitem (java self) ''path'' of Inl e \<Rightarrow> Inl e | Inr path \<Rightarrow>
      case getitem (java self) ''options'' of Inl e \<Rightarrow> Inl e | Inr java_options \<Rightarrow>
      case list_add [path, lit ''-jar'', jar self] java_options of Inl e \<Rightarrow> Inl e | Inr j1 \<Rightarrow>
      case list_add j1 (dict_get options_dict ''jvm_opts'' (PList [])) of Inl e \<Rightarrow> Inl e | Inr java_part \<Rightarrow>
      case getitem options_dict ''type'' of Inl e \<Rightarrow> Inl e | Inr ty \<Rightarrow>
      case py_upper ty of Inl e \<Rightarrow> Inl e | Inr up \<Rightarrow>
      case list_add [lit ''-m'', up] (dict_get options_dict ''options'' (PList [])) of Inl e \<Rightarrow> Inl e | Inr s1 \<Rightarrow>
      Inr (java_part @ (s1 @ [lit ''-p'', props_file self])))"

definition controller_run_args :: "SpecJBBRun \<Rightarrow> error + pyval list" where
  "controller_run_args self = full_options self (controller self)"

definition backend_run_args :: "SpecJBBRun \<Rightarrow> error + pyval list" where
  "backend_run_args self = full_options self (backends self)"

definition injector_run_args :: "SpecJBBRun \<Rightarrow> error + pyval list" where
  "injector_run_args self = full_options self (injectors self)"

text \<open>\<open>JvmRunOptions.__init__\<close>: the attribute dictionary of the new object. The
  branches are tried in the source's order: string, list, dictionary, \<open>None\<close>, anything
  else. \<open>val[0]\<close> of an empty list raises \<open>IndexError\<close>.\<close>

fun JvmRunOptions_init :: "pyval \<Rightarrow> error + dict" where
  "JvmRunOptions_init (PStr i s) = Inr [(''path'', PStr i s), (''options'', PList [])]"
| "JvmRunOptions_init (PList []) = Inl IndexError"
| "JvmRunOptions_init (PList (x # xs)) = Inr [(''path'', x), (''options'', PList xs)]"
| "JvmRunOptions_init (PDict val) =
     (case map_of val ''path'' of
        None \<Rightarrow> Inl (Exception ''path not specified for JvmRunOptions'')
      | Some p \<Rightarrow>
          if \<not> is_str p then Inl (Exception ''path must be a string'')
          else (case map_of val ''options'' of
                  None \<Rightarrow> Inr (setitem val ''options'' (PList []))
                | Some os \<Rightarrow>
                    if \<not> is_list os then Inl (Exception ''path must be a string'')
                    else Inr val))"
| "JvmRunOptions_init PNone = Inr [(''path'', lit ''java''), (''options'', PList [])]"
| "JvmRunOptions_init v = Inl (Exception ''unrecognized type given to JvmRunOptions'')"

text \<open>\<open>SpecJBBRun.__set_java__\<close>: the value stored in \<open>self.java\<close>.\<close>

fun set_java :: "pyval \<Rightarrow> error + dict" where
  "set_java (PStr i s) = Inr [(''path'', PStr i s), (''options'', PList [])]"
| "set_java (PList []) = Inl IndexError"
| "set_java (PList (x # xs)) = Inr [(''path'', x), (''options'', PList xs)]"
| "set_java (PDict d) = Inr d"
| "set_java v =
     Inl (InvalidRunConfigurationException ''java was not a string, list, or dictionary'')"

text \<open>The entries of a dictionary value; read only behind an \<open>isinstance(v, dict)\<close>
  test.\<close>

fun entries :: "pyval \<Rightarrow> dict" where
  "entries (PDict d) = d"
| "entries v = []"

text \<open>\<open>SpecJBBRun.__set_topology__\<close>, in three parts: the controller (the three guards,
  then the \<open>if controller is None\<close> branch that supplies a default), the backends and
  the injectors.\<close>

definition default_controller :: dict where
  "default_controller =
     [(''type'', lit ''composite''), (''options'', PList []), (''jvm_opts'', PList [])]"

definition set_controller :: "pyval \<Rightarrow> pyval \<Rightarrow> pyval \<Rightarrow> error + dict" where
  "set_controller controller_arg backends_arg injectors_arg =
     (if controller_arg = PNone \<and> backends_arg = PNone \<and> injectors_arg = PNone
      then Inl (InvalidRunConfigurationException ''no topology specified'')
      else if \<not> is_dict controller_arg
      then Inl (InvalidRunConfigurationException ''controller was not a dict'')
      else if \<not> has_key (entries controller_arg) ''type''
      then Inl (InvalidRunConfigurationException ''type was not specified in controller'')
      else if controller_arg = PNone then Inr default_controller
      else Inr (entries controller_arg))"

definition set_backends :: "pyval \<Rightarrow> error + dict" where
  "set_backends backends_arg =
     (if is_int backends_arg
      then Inr [(''count'', backends_arg), (''type'', lit ''backend''),
                (''options'', PList []), (''jvm_opts'', PList [])]
      else if is_dict backends_arg then Inr (entries backends_arg)
      else if backends_arg = PNone
      then Inr [(''count'', PInt 1), (''type'', lit ''backend''),
                (''options'', PList []), (''jvm_opts'', PList [])]
      else Inl (InvalidRunConfigurationException ''backends was not an integer or dict''))"

definition set_injectors :: "pyval \<Rightarrow> error + dict" where
  "set_injectors injectors_arg =
     (if is_int injectors_arg
      then Inr [(''count'', injectors_arg), (''type'', lit ''txinjector''),
                (''options'', PList []), (''jvm_opts'', PList [])]
      else if is_dict injectors_arg then Inr (entries injectors_arg)
      else if injectors_arg = PNone
      then Inr [(''count'', PInt 1), (''type'', lit ''txinjector''),
                (''options'', PList []), (''jvm_opts'', PList [])]
      else Inl (InvalidRunConfigurationException ''injectors was not an integer or dict''))"

definition set_topology :: "pyval \<Rightarrow> pyval \<Rightarrow> pyval \<Rightarrow> error + (dict \<times> dict \<times> dict)" where
  "set_topology controller_arg backends_arg injectors_arg =
     (case set_controller controller_arg backends_arg injectors_arg of Inl e \<Rightarrow> Inl e | Inr c \<Rightarrow>
      case set_backends backends_arg of Inl e \<Rightarrow> Inl e | Inr b \<Rightarrow>
      case set_injectors injectors_arg of Inl e \<Rightarrow> Inl e | Inr i \<Rightarrow>
      Inr (c, b, i))"

text \<open>\<open>SpecJBBRun.__init__\<close>. The arguments are given in full (the caller's defaults
  are \<open>None\<close> for the first five, \<open>{}\<close> for \<open>props\<close> and \<open>'specjbb2015.props'\<close> for
  \<open>props_file\<close>); the last argument is the supply of identifiers. \<open>None in [java, jar]\<close>
  holds when one of the two is \<open>None\<close>.\<close>

definition SpecJBBRun_init ::
  "pyval \<Rightarrow> pyval \<Rightarrow> pyval \<Rightarrow> pyval \<Rightarrow> pyval \<Rightarrow> pyval \<Rightarrow> pyval \<Rightarrow> nat
     \<Rightarrow> error + (SpecJBBRun \<times> nat)" where
  "SpecJBBRun_init controller_arg backends_arg injectors_arg java_arg jar_arg props_arg
       props_file_arg n =
     (if java_arg = PNone \<or> jar_arg = PNone \<or> \<not> is_str jar_arg
      then Inl (InvalidRunConfigurationException ''Run was invalid'')
      else
        case uuid4 n of (rid, n') \<Rightarrow>
        case set_java java_arg of Inl e \<Rightarrow> Inl e | Inr j \<Rightarrow>
        case set_topology controller_arg backends_arg injectors_arg of Inl e \<Rightarrow> Inl e
        | Inr (c, b, i) \<Rightarrow>
            Inr (\<lparr>jar = jar_arg, props = props_arg, props_file = props_file_arg, run_id = rid,
                  java = j, controller = c, backends = b, injectors = i\<rparr>, n'))"

subsection \<open>Tasks\<close>

text \<open>
  Modelled from the spec: the Process Runner (\<open>src/task_runner.py\<close> is imported by
  \<open>benchmark_run.py\<close> and is not among the sources). It is built from the full argument
  list; \<open>run()\<close> launches the process and blocks until it exits, \<open>start()\<close> launches it
  without blocking, \<open>stop()\<close> ends the started process.

  An argument is a value of the run or one of the two formatted flags: \<open>GroupFlag g\<close> is
  the string \<open>'-G={}'.format(g)\<close> and \<open>JvmFlag j\<close> the string \<open>'-J={}'.format(j)\<close>.
\<close>

datatype arg = Arg pyval | GroupFlag uuid | JvmFlag uuid

datatype task = TaskRunner "arg list"

fun group_ids :: "task \<Rightarrow> uuid list" where
  "group_ids (TaskRunner as) = concat (map (\<lambda>a. case a of GroupFlag g \<Rightarrow> [g] | _ \<Rightarrow> []) as)"

fun jvm_ids :: "task \<Rightarrow> uuid list" where
  "jvm_ids (TaskRunner as) = concat (map (\<lambda>a. case a of JvmFlag j \<Rightarrow> [j] | _ \<Rightarrow> []) as)"

text \<open>\<open>range(v)\<close>: the number of iterations; none for a negative count, a
  \<open>TypeError\<close> unless \<open>v\<close> is an integer.\<close>

fun py_range :: "pyval \<Rightarrow> error + nat" where
  "py_range (PInt n) = Inr (nat n)"
| "py_range (PBool b) = Inr (if b then 1 else 0)"
| "py_range v = Inl TypeError"

text \<open>The inner loop of \<open>_generate_tasks\<close>: \<open>k\<close> injectors of group \<open>g\<close>.\<close>

fun injector_tasks :: "SpecJBBRun \<Rightarrow> uuid \<Rightarrow> nat \<Rightarrow> nat \<Rightarrow> error + (task list \<times> nat)" where
  "injector_tasks self g 0 n = Inr ([], n)"
| "injector_tasks self g (Suc k) n =
     (case uuid4 n of (ti_jvm_id, n1) \<Rightarrow>
      case injector_run_args self of Inl e \<Rightarrow> Inl e | Inr a \<Rightarrow>
      case injector_tasks self g k n1 of Inl e \<Rightarrow> Inl e | Inr (ts, n2) \<Rightarrow>
      Inr (TaskRunner (map Arg a @ [GroupFlag g, JvmFlag ti_jvm_id]) # ts, n2))"

text \<open>The outer loop: \<open>k\<close> groups, each a backend followed by its injectors.\<close>

fun group_tasks :: "SpecJBBRun \<Rightarrow> nat \<Rightarrow> nat \<Rightarrow> error + (task list \<times> nat)" where
  "group_tasks self 0 n = Inr ([], n)"
| "group_tasks self (Suc k) n =
     (case uuid4 n of (group_id, n1) \<Rightarrow>
      case uuid4 n1 of (backend_jvm_id, n2) \<Rightarrow>
      case backend_run_args self of Inl e \<Rightarrow> Inl e | Inr a \<Rightarrow>
      case getitem (injectors self) ''count'' of Inl e \<Rightarrow> Inl e | Inr ic \<Rightarrow>
      case py_range ic of Inl e \<Rightarrow> Inl e | Inr m \<Rightarrow>
      case injector_tasks self group_id m n2 of Inl e \<Rightarrow> Inl e | Inr (its, n3) \<Rightarrow>
      case group_tasks self k n3 of Inl e \<Rightarrow> Inl e | Inr (rest, n4) \<Rightarrow>
      Inr (TaskRunner (map Arg a @ [GroupFlag group_id, JvmFlag backend_jvm_id]) # its @ rest,
           n4))"

text \<open>\<open>_generate_tasks\<close>, read to its end as \<open>run\<close> does: the list of the tasks it
  yields, or the exception that stops it. The log line reads both counts before the
  loop.\<close>

definition generate_tasks :: "SpecJBBRun \<Rightarrow> nat \<Rightarrow> error + (task list \<times> nat)" where
  "generate_tasks self n =
     (case getitem (controller self) ''type'' of Inl e \<Rightarrow> Inl e | Inr ty \<Rightarrow>
      if is_literal ty ''composite'' then Inr ([], n)
      else
        case getitem (backends self) ''count'' of Inl e \<Rightarrow> Inl e | Inr bc \<Rightarrow>
        case getitem (injectors self) ''count'' of Inl e \<Rightarrow> Inl e | Inr ic \<Rightarrow>
        case py_range bc of Inl e \<Rightarrow> Inl e | Inr m \<Rightarrow>
        group_tasks self m n)"

subsection \<open>The properties file\<close>

text \<open>
  \<open>run\<close> hands the dictionary \<open>{'SPECtate': self.props}\<close> to a \<open>ConfigParser\<close> of the
  standard library, with its default settings, and writes the parser to the file. As the
  library documents it: \<open>read_dict\<close> converts each key with \<open>optionxform\<close>, which is
  lower-casing, and each value that is not \<open>None\<close> with \<open>str\<close>; in the default strict mode
  a key that comes twice raises \<open>DuplicateOptionError\<close>; a \<open>None\<close> value raises
  \<open>TypeError\<close>; a non-empty value is checked for its interpolation markers: after
  every \<open>%%\<close> and then every \<open>%(name)s\<close> has been taken out, a remaining \<open>%\<close> raises
  \<open>ValueError\<close>. A value that is not a dictionary has no \<open>items\<close>: \<open>AttributeError\<close>.
  The text \<open>str(v)\<close> of a value is a parameter of the model.
\<close>

fun remove_escaped :: "string \<Rightarrow> string" where
  "remove_escaped (a # b # cs) =
     (if a = CHR ''%'' \<and> b = CHR ''%'' then remove_escaped cs
      else a # remove_escaped (b # cs))"
| "remove_escaped cs = cs"

text \<open>What follows a \<open>%\<close> that starts a marker \<open>%(name)s\<close>: the text after the marker.\<close>

definition after_key :: "string \<Rightarrow> string option" where
  "after_key cs =
     (case cs of
        a # rest \<Rightarrow>
          if a = CHR ''('' \<and> takeWhile (\<lambda>c. c \<noteq> CHR '')'') rest \<noteq> []
          then (case dropWhile (\<lambda>c. c \<noteq> CHR '')'') rest of
                  b # c # rest' \<Rightarrow> if c = CHR ''s'' then Some rest' else None
                | _ \<Rightarrow> None)
          else None
      | [] \<Rightarrow> None)"

text \<open>The markers are taken out from the left; \<open>k\<close> bounds the characters still to be
  read, and the length of the text is always enough.\<close>

fun remove_keys_upto :: "nat \<Rightarrow> string \<Rightarrow> string" where
  "remove_keys_upto 0 cs = cs"
| "remove_keys_upto (Suc k) [] = []"
| "remove_keys_upto (Suc k) (c # cs) =
     (if c = CHR ''%'' then
        (case after_key cs of
           Some rest \<Rightarrow> remove_keys_upto k rest
         | None \<Rightarrow> c # remove_keys_upto k cs)
      else c # remove_keys_upto k cs)"

definition remove_keys :: "string \<Rightarrow> string" where
  "remove_keys cs = remove_keys_upto (length cs) cs"

definition bad_interpolation :: "string \<Rightarrow> bool" where
  "bad_interpolation v = (v \<noteq> [] \<and> CHR ''%'' \<in> set (remove_keys (remove_escaped v)))"

fun read_items :: "(pyval \<Rightarrow> string) \<Rightarrow> dict \<Rightarrow> string list \<Rightarrow> error + (string \<times> string) list" where
  "read_items str [] added = Inr []"
| "read_items str ((key, val) # rest) added =
     (if lower key \<in> set added then Inl (DuplicateOptionError (lower key))
      else if val = PNone then Inl TypeError
      else if bad_interpolation (str val) then Inl ValueError
      else (case read_items str rest (lower key # added) of
              Inl e \<Rightarrow> Inl e
            | Inr kvs \<Rightarrow> Inr ((lower key, str val) # kvs)))"

text \<open>The sections of the parser after \<open>read_dict({'SPECtate': props})\<close>.\<close>

type_synonym ini = "(string \<times> (string \<times> string) list) list"

fun ConfigParser_read_dict :: "(pyval \<Rightarrow> string) \<Rightarrow> pyval \<Rightarrow> error + ini" where
  "ConfigParser_read_dict str (PDict d) =
     (case read_items str d [] of Inl e \<Rightarrow> Inl e | Inr kvs \<Rightarrow> Inr [(''SPECtate'', kvs)])"
| "ConfigParser_read_dict str v = Inl AttributeError"







text \<open>\<open>open(props_file, 'w+')\<close> creates the file or empties it. A string is a path and
  an integer a file descriptor; any other value is a \<open>TypeError\<close>. The empty path raises
  \<open>FileNotFoundError\<close>, a path with a NUL character and a negative descriptor raise
  \<open>ValueError\<close>. Whether any other path or descriptor can be opened is for the file
  system to say: \<open>fs f\<close> holds when it opens \<open>f\<close> for writing, and its refusal is an
  \<open>OSError\<close>.\<close>

fun descriptor :: "pyval \<Rightarrow> int" where
  "descriptor (PInt n) = n"
| "descriptor (PBool b) = (if b then 1 else 0)"
| "descriptor v = 0"

definition py_open :: "(pyval \<Rightarrow> bool) \<Rightarrow> pyval \<Rightarrow> error + pyval" where
  "py_open fs f =
     (if is_str f then
        (if chars f = Some [] then Inl FileNotFoundError
         else if CHR 0x00 \<in> set (case chars f of Some s \<Rightarrow> s | None \<Rightarrow> []) then Inl ValueError
         else if fs f then Inr f else Inl OSError)
      else if is_int f then
        (if descriptor f < 0 then Inl ValueError
         else if fs f then Inr f else Inl OSError)
      else Inl TypeError)"

subsection \<open>Running\<close>

text \<open>What \<open>run\<close> does to the world, in order: the file is opened and emptied, the
  parser with its sections writes itself to the file (\<open>WriteIni f doc\<close> puts the text
  \<open>ConfigParser_write doc\<close> into \<open>f\<close>), a process runner is run, started or stopped, a
  pool of a number of workers is made, and the pool runs every task of a list, each in
  a worker of its own. \<open>Pool(processes=0)\<close> raises \<open>ValueError\<close>.\<close>

datatype event =
    OpenTruncate pyval
  | WriteIni pyval ini
  | ProcRun task
  | ProcStart task
  | ProcStop task
  | PoolCreate nat
  | PoolMap "task list"

text \<open>\<open>run\<close>, in a file system \<open>fs\<close> and with \<open>str\<close> as the text of a value: the events
  up to the return or up to the exception, and the exception if there is one.\<close>

definition run ::
  "(pyval \<Rightarrow> bool) \<Rightarrow> (pyval \<Rightarrow> string) \<Rightarrow> SpecJBBRun \<Rightarrow> nat \<Rightarrow> event list \<times> error option" where
  "run fs str self n =
     (case py_open fs (props_file self) of Inl e \<Rightarrow> ([], Some e) | Inr f \<Rightarrow>
      case ConfigParser_read_dict str (props self) of
        Inl e \<Rightarrow> ([OpenTruncate f], Some e)
      | Inr doc \<Rightarrow>
      case controller_run_args self of
        Inl e \<Rightarrow> ([OpenTruncate f, WriteIni f doc], Some e)
      | Inr a \<Rightarrow>
      case getitem (controller self) ''type'' of
        Inl e \<Rightarrow> ([OpenTruncate f, WriteIni f doc], Some e)
      | Inr ty \<Rightarrow>
      if is_literal ty ''composite''
      then ([OpenTruncate f, WriteIni f doc, ProcRun (TaskRunner (map Arg a))], None)
      else
        case generate_tasks self n of
          Inl e \<Rightarrow>
            ([OpenTruncate f, WriteIni f doc, ProcStart (TaskRunner (map Arg a))], Some e)
        | Inr (tasks, n') \<Rightarrow>
            if length tasks = 0
            then ([OpenTruncate f, WriteIni f doc, ProcStart (TaskRunner (map Arg a))],
                  Some ValueError)
            else ([OpenTruncate f, WriteIni f doc, ProcStart (TaskRunner (map Arg a)),
                   PoolCreate (length tasks), PoolMap tasks,
                   ProcStop (TaskRunner (map Arg a))], None))"


section \<open>validate.py\<close>

text \<open>
  The schemas fix the shape of a document; the shape is the type of the model, so a
  document here has the declared keys with values of the declared types and no other
  key. What the schemas do beyond the shape is modelled: a key declared
  \<open>Optional\<close> with a default gets the default when it is absent, and \<open>run_type\<close> must be,
  in lower case, one of four names, or the schema library raises its \<open>SchemaError\<close>.
  A mapping is kept in the order of its keys; no result of \<open>validate\<close> depends on that
  order.
  The field names are the keys, but for \<open>template_java\<close>, \<open>template_jar\<close>, \<open>run_args\<close>
  and the three maps \<open>annotation_map\<close>, \<open>translation_map\<close> and \<open>type_map\<close>.
\<close>

record template =
  args :: "string list"
  run_type :: "string option"
  template_java :: "string option"
  template_jar :: "string option"
  default_props :: "dict option"
  annotation_map :: "(string \<times> string) list option"
  translation_map :: "(string \<times> string) list option"
  type_map :: "(string \<times> string) list option"

record run_config =
  template_type :: string
  run_args :: dict
  props_extra :: "(string \<times> string) list option"

record config =
  TemplateData :: "(string \<times> template) list"
  RunList :: "run_config list"

definition run_types :: "string list" where
  "run_types = [''multi'', ''composite'', ''distributed_ctrl_txl'', ''distributed_sut'']"

definition with_defaults :: "template \<Rightarrow> template" where
  "with_defaults t =
     t\<lparr>run_type := Some (case run_type t of Some rt \<Rightarrow> rt | None \<Rightarrow> ''composite''),
       template_java := Some (case template_java t of Some j \<Rightarrow> j | None \<Rightarrow> ''java''),
       template_jar :=
         Some (case template_jar t of Some j \<Rightarrow> j | None \<Rightarrow> ''specjbb2015.jar'')\<rparr>"

text \<open>A mapping whose schema has the plain key \<open>is_stringy\<close> (the four optional maps of
  a template, and \<open>TemplateData\<close>) needs at least one key: an empty one is a
  \<open>SchemaError\<close>. The maps of a run have the key \<open>Optional(is_stringy)\<close> and may be
  empty, as may the lists.\<close>

definition has_entries :: "(string \<times> 'v) list option \<Rightarrow> bool" where
  "has_entries m = (case m of None \<Rightarrow> True | Some kvs \<Rightarrow> kvs \<noteq> [])"

definition run_type_ok :: "template \<Rightarrow> bool" where
  "run_type_ok t = (case run_type t of Some rt \<Rightarrow> lower rt \<in> set run_types | None \<Rightarrow> True)"

definition TemplateSchema :: "template \<Rightarrow> error + template" where
  "TemplateSchema t =
     (if run_type_ok t \<and> has_entries (default_props t) \<and> has_entries (annotation_map t)
         \<and> has_entries (translation_map t) \<and> has_entries (type_map t)
      then Inr (with_defaults t)
      else Inl SchemaError)"

text \<open>The templates of a \<open>TemplateData\<close> that has at least one, each through
  \<open>TemplateSchema\<close>.\<close>

fun TemplateData_schema :: "(string \<times> template) list \<Rightarrow> error + (string \<times> template) list" where
  "TemplateData_schema [] = Inr []"
| "TemplateData_schema ((name, t) # rest) =
     (case TemplateSchema t of Inl e \<Rightarrow> Inl e | Inr t' \<Rightarrow>
      case TemplateData_schema rest of Inl e \<Rightarrow> Inl e | Inr rest' \<Rightarrow>
      Inr ((name, t') # rest'))"

definition SpectateConfig :: "config \<Rightarrow> error + config" where
  "SpectateConfig unvalidated =
     (if TemplateData unvalidated = [] then Inl SchemaError
      else case TemplateData_schema (TemplateData unvalidated) of
             Inl e \<Rightarrow> Inl e
           | Inr td \<Rightarrow> Inr (unvalidated\<lparr>TemplateData := td\<rparr>))"

text \<open>The first loop over a run: every key of its \<open>args\<close> is in the template's
  \<open>args\<close>; \<open>False\<close> is the \<open>return None\<close>.\<close>

fun args_in_template :: "template \<Rightarrow> string list \<Rightarrow> bool" where
  "args_in_template t [] = True"
| "args_in_template t (arg # rest) =
     (if arg \<notin> set (args t) then False else args_in_template t rest)"

text \<open>The second loop: an argument of the template that the run does not give must be
  in \<open>t["default_props"]\<close>. The subscript is evaluated only when the argument is not in
  the run, and raises \<open>KeyError\<close> when the template has no such key.\<close>

fun args_have_default :: "template \<Rightarrow> run_config \<Rightarrow> string list \<Rightarrow> error + bool" where
  "args_have_default t r [] = Inr True"
| "args_have_default t r (arg # rest) =
     (if \<not> has_key (run_args r) arg
      then (case default_props t of
              None \<Rightarrow> Inl (KeyError ''default_props'')
            | Some dp \<Rightarrow>
                if \<not> has_key dp arg then Inr False else args_have_default t r rest)
      else args_have_default t r rest)"

fun check_runs :: "(string \<times> template) list \<Rightarrow> run_config list \<Rightarrow> error + bool" where
  "check_runs td [] = Inr True"
| "check_runs td (r # rest) =
     (case getitem td (template_type r) of Inl e \<Rightarrow> Inl e | Inr t \<Rightarrow>
      if \<not> args_in_template t (map fst (run_args r)) then Inr False
      else (case args_have_default t r (args t) of
              Inl e \<Rightarrow> Inl e
            | Inr ok \<Rightarrow> if \<not> ok then Inr False else check_runs td rest))"

text \<open>The loop over the templates: the keys of the translations, then those of
  the annotations, each looked at only when the key is in the template.\<close>

definition keys_in_args :: "template \<Rightarrow> (string \<times> string) list option \<Rightarrow> bool" where
  "keys_in_args t m = (case m of None \<Rightarrow> True | Some kvs \<Rightarrow> args_in_template t (map fst kvs))"

fun check_templates :: "template list \<Rightarrow> bool" where
  "check_templates [] = True"
| "check_templates (t # rest) =
     (if \<not> keys_in_args t (translation_map t) then False
      else if \<not> keys_in_args t (annotation_map t) then False
      else check_templates rest)"

text \<open>\<open>validate\<close>: the exception, \<open>None\<close>, or the document the schema returned.\<close>

definition validate :: "config \<Rightarrow> error + config option" where
  "validate unvalidated =
     (case SpectateConfig unvalidated of Inl e \<Rightarrow> Inl e | Inr d \<Rightarrow>
      case check_runs (TemplateData d) (RunList d) of Inl e \<Rightarrow> Inl e | Inr ok \<Rightarrow>
      if \<not> ok then Inr None
      else if \<not> check_templates (map snd (TemplateData d)) then Inr None
      else Inr (Some d))"

section \<open>Expected results and example inputs\<close>

text \<open>The tasks that the spec describes, for stating what \<open>_generate_tasks\<close> yields:
  a task is an argument list followed by the group flag and the JVM flag; a group that
  starts with the supply at \<open>m\<close> is a backend task with group \<open>Uuid m\<close> and JVM
  \<open>Uuid (m + 1)\<close>, followed by \<open>I\<close> injector tasks of the same group with the next \<open>I\<close>
  identifiers; \<open>B\<close> groups follow one another, each taking \<open>I + 2\<close> identifiers.\<close>

definition tagged :: "pyval list \<Rightarrow> uuid \<Rightarrow> uuid \<Rightarrow> task" where
  "tagged a g j = TaskRunner (map Arg a @ [GroupFlag g, JvmFlag j])"

definition expected_group :: "pyval list \<Rightarrow> pyval list \<Rightarrow> nat \<Rightarrow> nat \<Rightarrow> task list" where
  "expected_group ba ia I m =
     tagged ba (Uuid m) (Uuid (m + 1)) #
     map (\<lambda>j. tagged ia (Uuid m) (Uuid (m + 2 + j))) [0..<I]"

definition expected_tasks :: "pyval list \<Rightarrow> pyval list \<Rightarrow> nat \<Rightarrow> nat \<Rightarrow> nat \<Rightarrow> task list" where
  "expected_tasks ba ia B I n =
     concat (map (\<lambda>q. expected_group ba ia I (n + q * (I + 2))) [0..<B])"

text \<open>A run with a controller that is not composite, two backends and three injectors
  for each.\<close>

definition example_run :: SpecJBBRun where
  "example_run =
     \<lparr>jar = lit ''x.jar'', props = PDict [], props_file = lit ''p.props'', run_id = Uuid 0,
      java = [(''path'', lit ''java''), (''options'', PList [lit ''-Xmx1g''])],
      controller = [(''type'', lit ''multi'')],
      backends = [(''type'', lit ''backend''), (''count'', PInt 2),
                  (''options'', PList [lit ''-Dfoo=bar'']),
                  (''jvm_opts'', PList [lit ''-Xms1g''])],
      injectors = [(''type'', lit ''txinjector''), (''count'', PInt 3)]\<rparr>"

text \<open>The argument lists of its backends and of its injectors.\<close>

definition example_backend_args :: "pyval list" where
  "example_backend_args =
     [lit ''java'', lit ''-jar'', lit ''x.jar'', lit ''-Xmx1g'', lit ''-Xms1g'',
      lit ''-m'', PStr Heap ''BACKEND'', lit ''-Dfoo=bar'', lit ''-p'', lit ''p.props'']"

definition example_injector_args :: "pyval list" where
  "example_injector_args =
     [lit ''java'', lit ''-jar'', lit ''x.jar'', lit ''-Xmx1g'',
      lit ''-m'', PStr Heap ''TXINJECTOR'', lit ''-p'', lit ''p.props'']"

text \<open>A run constructed with the empty string as \<open>jar\<close>.\<close>

definition empty_jar_run :: SpecJBBRun where
  "empty_jar_run =
     \<lparr>jar = lit '''', props = PDict [], props_file = lit ''specjbb2015.props'',
      run_id = Uuid 0, java = [(''path'', lit ''java''), (''options'', PList [])],
      controller = [(''type'', lit ''composite'')],
      backends = [(''count'', PInt 1), (''type'', lit ''backend''),
                  (''options'', PList []), (''jvm_opts'', PList [])],
      injectors = [(''count'', PInt 1), (''type'', lit ''txinjector''),
                   (''options'', PList []), (''jvm_opts'', PList [])]\<rparr>"

text \<open>A document with one template that declares \<open>a\<close> and \<open>b\<close> and gives \<open>b\<close> a default,
  and one run that supplies \<open>a\<close>; and the same document after the schema's defaults.\<close>

definition example_template :: template where
  "example_template =
     \<lparr>args = [''a'', ''b''], run_type = None, template_java = None, template_jar = None,
      default_props = Some [(''b'', PInt 1)], annotation_map = None, translation_map = None,
      type_map = None\<rparr>"

definition example_config :: config where
  "example_config =
     \<lparr>TemplateData = [(''t'', example_template)],
      RunList = [\<lparr>template_type = ''t'', run_args = [(''a'', PInt 5)], props_extra = None\<rparr>]\<rparr>"

definition example_defaulted :: config where
  "example_defaulted =
     \<lparr>TemplateData =
        [(''t'', example_template\<lparr>run_type := Some ''composite'', template_java := Some ''java'',
                                  template_jar := Some ''specjbb2015.jar''\<rparr>)],
      RunList = [\<lparr>template_type = ''t'', run_args = [(''a'', PInt 5)], props_extra = None\<rparr>]\<rparr>"

text \<open>A document whose template declares \<open>a\<close> and has no \<open>default_props\<close>, with a run
  that supplies nothing; and the same with a \<open>default_props\<close> that has \<open>b\<close> only.\<close>

definition no_defaults_config :: config where
  "no_defaults_config =
     \<lparr>TemplateData =
        [(''t'', \<lparr>args = [''a''], run_type = None, template_java = None, template_jar = None,
                 default_props = None, annotation_map = None, translation_map = None,
                 type_map = None\<rparr>)],
      RunList = [\<lparr>template_type = ''t'', run_args = [], props_extra = None\<rparr>]\<rparr>"

definition other_defaults_config :: config where
  "other_defaults_config =
     \<lparr>TemplateData =
        [(''t'', \<lparr>args = [''a''], run_type = None, template_java = None, template_jar = None,
                 default_props = Some [(''b'', PInt 1)], annotation_map = None,
                 translation_map = None,
                 type_map = None\<rparr>)],
      RunList = [\<lparr>template_type = ''t'', run_args = [], props_extra = None\<rparr>]\<rparr>"

text \<open>A file system in which the default properties file, and no other, can be
  written.\<close>

definition default_file_only :: "pyval \<Rightarrow> bool" where
  "default_file_only f = (chars f = Some ''specjbb2015.props'')"


text \<open>\<open>str\<close> on strings, where it is the string itself; for the examples, whose
  properties are strings.\<close>

definition str_of_string :: "pyval \<Rightarrow> string" where
  "str_of_string v = (case chars v of Some s \<Rightarrow> s | None \<Rightarrow> [])"


definition heap_composite_run :: SpecJBBRun where
  "heap_composite_run =
     \<lparr>jar = lit ''x.jar'', props = PDict [], props_file = lit ''specjbb2015.props'',
      run_id = Uuid 0, java = [(''path'', lit ''java''), (''options'', PList [])],
      controller = [(''type'', PStr Heap ''composite'')],
      backends = [(''count'', PInt 1), (''type'', lit ''backend''),
                  (''options'', PList []), (''jvm_opts'', PList [])],
      injectors = [(''count'', PInt 1), (''type'', lit ''txinjector''),
                   (''options'', PList []), (''jvm_opts'', PList [])]\<rparr>"

definition plain_args :: "string \<Rightarrow> pyval list" where
  "plain_args role =
     [lit ''java'', lit ''-jar'', lit ''x.jar'', lit ''-m'', PStr Heap role,
      lit ''-p'', lit ''specjbb2015.props'']"

section \<open>Command-line assembly\<close>

lemma full_options_eq:
  assumes "map_of (java self) ''path'' = Some p"
    and "map_of (java self) ''options'' = Some (PList jo)"
    and "map_of od ''type'' = Some (PStr i t)"
    and "dict_get od ''jvm_opts'' (PList []) = PList jv"
    and "dict_get od ''options'' (PList []) = PList os"
  shows "full_options self od =
           Inr ([p, lit ''-jar'', jar self] @ jo @ jv @
                [lit ''-m'', PStr Heap (upper t)] @ os @ [lit ''-p'', props_file self])"
  using assms by (simp add: full_options_def getitem_def)

text \<open>
  C1. For a run whose \<open>java\<close> record has a \<open>path\<close> and a list of \<open>options\<close>, and a
  component record with a string \<open>type\<close>, a list \<open>jvm_opts\<close> and a list \<open>options\<close> (each
  of the two absent or present), the argument list is
  \<open>[path, "-jar", jar] + java options + jvm_opts + ["-m", TYPE] + options + ["-p", props_file]\<close>,
  and the controller, backend and injector argument lists are this same function applied
  to the run's \<open>controller\<close>, \<open>backends\<close> and \<open>injectors\<close> records.
\<close>

theorem full_options_formula:
  assumes "map_of (java self) ''path'' = Some p"
    and "map_of (java self) ''options'' = Some (PList jo)"
    and "map_of od ''type'' = Some (PStr i t)"
    and "dict_get od ''jvm_opts'' (PList []) = PList jv"
    and "dict_get od ''options'' (PList []) = PList os"
  shows "full_options self od =
           Inr ([p, lit ''-jar'', jar self] @ jo @ jv @
                [lit ''-m'', PStr Heap (upper t)] @ os @ [lit ''-p'', props_file self])
         \<and> controller_run_args self = full_options self (controller self)
         \<and> backend_run_args self = full_options self (backends self)
         \<and> injector_run_args self = full_options self (injectors self)"
  using full_options_eq [OF assms]
  by (simp add: controller_run_args_def backend_run_args_def injector_run_args_def)

lemma upper_backend: "upper ''backend'' = ''BACKEND''"
  by (simp add: upper_def upper_char_def)

theorem full_options_formula_witness:
  "full_options example_run (backends example_run) =
     Inr [lit ''java'', lit ''-jar'', lit ''x.jar'', lit ''-Xmx1g'', lit ''-Xms1g'',
          lit ''-m'', PStr Heap ''BACKEND'', lit ''-Dfoo=bar'', lit ''-p'', lit ''p.props'']
   \<and> backend_run_args example_run = full_options example_run (backends example_run)"
  using full_options_formula [of example_run "lit ''java''" "[lit ''-Xmx1g'']"
      "backends example_run" Interned "''backend''" "[lit ''-Xms1g'']" "[lit ''-Dfoo=bar'']"]
  by (simp add: example_run_def dict_get_def lit_def upper_backend)

section \<open>Topology expansion\<close>

lemma jvm_ids_tagged: "jvm_ids (tagged a g j) = [j]"
  by (induction a) (simp_all add: tagged_def)

lemma group_ids_tagged: "group_ids (tagged a g j) = [g]"
  by (induction a) (simp_all add: tagged_def)

lemma injector_tasks_eq:
  assumes "injector_run_args self = Inr ia"
  shows "injector_tasks self g k n =
           Inr (map (\<lambda>j. tagged ia g (Uuid (n + j))) [0..<k], n + k)"
proof (induction k arbitrary: n)
  case 0
  show ?case by simp
next
  case (Suc k)
  have "[0..<Suc k] = 0 # map Suc [0..<k]"
    by (simp add: upt_conv_Cons map_Suc_upt del: upt_Suc)
  then show ?case
    using assms Suc [of "Suc n"] by (simp add: uuid4_def tagged_def comp_def del: upt_Suc)
qed

lemma group_tasks_eq:
  assumes "backend_run_args self = Inr ba"
    and "injector_run_args self = Inr ia"
    and "map_of (injectors self) ''count'' = Some (PInt (int I))"
  shows "group_tasks self k n = Inr (expected_tasks ba ia k I n, n + k * (I + 2))"
proof (induction k arbitrary: n)
  case 0
  show ?case by (simp add: expected_tasks_def)
next
  case (Suc k)
  have u: "[0..<Suc k] = 0 # map Suc [0..<k]"
    by (simp add: upt_conv_Cons map_Suc_upt del: upt_Suc)
  have e: "expected_tasks ba ia (Suc k) I n =
             expected_group ba ia I n @ expected_tasks ba ia k I (n + (I + 2))"
    unfolding expected_tasks_def u by (simp add: comp_def algebra_simps del: upt_Suc)
  have i: "injector_tasks self (Uuid n) I (Suc (Suc n)) =
             Inr (map (\<lambda>j. tagged ia (Uuid n) (Uuid (n + 2 + j))) [0..<I], n + 2 + I)"
    using injector_tasks_eq [OF assms(2), of "Uuid n" I "Suc (Suc n)"] by simp
  have r: "group_tasks self k (n + 2 + I) =
             Inr (expected_tasks ba ia k I (n + (I + 2)), n + (I + 2) + k * (I + 2))"
    using Suc [of "n + (I + 2)"] by (simp add: add.commute add.left_commute)
  show ?case
    using assms(1,3) i r e
    by (simp add: uuid4_def getitem_def expected_group_def tagged_def del: upt_Suc)
qed

lemma length_expected_tasks: "length (expected_tasks ba ia B I n) = B + B * I"
  by (induction B) (simp_all add: expected_tasks_def expected_group_def)

lemma jvm_ids_expected_group:
  "concat (map jvm_ids (expected_group ba ia I m)) =
     Uuid (m + 1) # map (\<lambda>j. Uuid (m + 2 + j)) [0..<I]"
  by (simp add: expected_group_def jvm_ids_tagged comp_def concat_map_singleton del: upt_Suc)

lemma jvm_ids_group_distinct:
  "distinct (concat (map jvm_ids (expected_group ba ia I m)))"
  unfolding jvm_ids_expected_group by (auto simp: distinct_map inj_on_def)

lemma jvm_ids_group_range:
  "set (concat (map jvm_ids (expected_group ba ia I m))) \<subseteq> Uuid ` {m..<m + (I + 2)}"
  unfolding jvm_ids_expected_group by auto

lemma uuid_ranges:
  assumes "A \<subseteq> Uuid ` {a..<b}" and "C \<subseteq> Uuid ` {b..<b + c}" and "a \<le> b"
  shows "A \<inter> C = {}" and "A \<union> C \<subseteq> Uuid ` {a..<b + c}"
proof -
  show "A \<inter> C = {}"
  proof (rule ccontr)
    assume "A \<inter> C \<noteq> {}"
    then obtain x where "x \<in> A" and "x \<in> C" by blast
    from \<open>x \<in> A\<close> assms(1) obtain i where i: "x = Uuid i" "i < b" by auto
    from \<open>x \<in> C\<close> assms(2) obtain j where j: "x = Uuid j" "b \<le> j" by auto
    from i j show False by simp
  qed
  show "A \<union> C \<subseteq> Uuid ` {a..<b + c}"
  proof
    fix x assume "x \<in> A \<union> C"
    then consider "x \<in> A" | "x \<in> C" by blast
    then show "x \<in> Uuid ` {a..<b + c}"
    proof cases
      case 1
      then obtain i where "x = Uuid i" "a \<le> i" "i < b" using assms(1) by auto
      then show ?thesis by auto
    next
      case 2
      then obtain i where "x = Uuid i" "b \<le> i" "i < b + c" using assms(2) by auto
      then show ?thesis using assms(3) by auto
    qed
  qed
qed

lemma jvm_ids_expected_tasks:
  "distinct (concat (map jvm_ids (expected_tasks ba ia B I n))) \<and>
   set (concat (map jvm_ids (expected_tasks ba ia B I n))) \<subseteq> Uuid ` {n..<n + B * (I + 2)}"
proof (induction B)
  case 0
  show ?case by (simp add: expected_tasks_def)
next
  case (Suc B)
  let ?old = "concat (map jvm_ids (expected_tasks ba ia B I n))"
  let ?new = "concat (map jvm_ids (expected_group ba ia I (n + B * (I + 2))))"
  have e: "concat (map jvm_ids (expected_tasks ba ia (Suc B) I n)) = ?old @ ?new"
    by (simp add: expected_tasks_def)
  have o: "set ?old \<subseteq> Uuid ` {n..<n + B * (I + 2)}" and od: "distinct ?old"
    using Suc by simp_all
  have nw: "set ?new \<subseteq> Uuid ` {n + B * (I + 2)..<n + B * (I + 2) + (I + 2)}"
    by (rule jvm_ids_group_range)
  have disj: "set ?old \<inter> set ?new = {}"
    by (rule uuid_ranges(1) [OF o nw]) simp
  have "set ?old \<union> set ?new \<subseteq> Uuid ` {n..<n + B * (I + 2) + (I + 2)}"
    by (rule uuid_ranges(2) [OF o nw]) simp
  then have sub: "set ?old \<union> set ?new \<subseteq> Uuid ` {n..<n + Suc B * (I + 2)}"
    by (simp add: add.commute add.left_commute)
  show ?case
    unfolding e using od disj sub jvm_ids_group_distinct [of ba ia I "n + B * (I + 2)"]
    by simp
qed

lemma group_ids_expected_group:
  "concat (map group_ids (expected_group ba ia I m)) = replicate (Suc I) (Uuid m)"
  by (simp add: expected_group_def group_ids_tagged comp_def concat_map_singleton
      map_replicate_const del: upt_Suc)

lemma group_ids_expected_tasks:
  "concat (map group_ids (expected_tasks ba ia B I n)) =
     concat (map (\<lambda>q. replicate (Suc I) (Uuid (n + q * (I + 2)))) [0..<B])"
  by (induction B) (simp_all add: expected_tasks_def group_ids_expected_group)

lemma not_composite_literal: "chars ty \<noteq> Some ''composite'' \<Longrightarrow> \<not> is_literal ty ''composite''"
  by (auto simp: is_literal_def)

text \<open>
  C2. For a run whose controller type is not \<open>"composite"\<close>, whose backends count is
  \<open>B\<close> and injectors count is \<open>I\<close> (counts of the data model: not negative) and whose
  backend and injector argument lists can be built, \<open>_generate_tasks\<close> yields exactly the
  \<open>B\<close> groups of \<open>expected_tasks\<close>, in order: \<open>B + B * I\<close> tasks, each backend followed by
  its \<open>I\<close> injectors, the \<open>I + 1\<close> tasks of a group carrying the group's identifier, and
  all JVM identifiers different.
\<close>

theorem generate_tasks_groups:
  assumes "map_of (controller self) ''type'' = Some ty"
    and "chars ty \<noteq> Some ''composite''"
    and "map_of (backends self) ''count'' = Some (PInt (int B))"
    and "map_of (injectors self) ''count'' = Some (PInt (int I))"
    and "backend_run_args self = Inr ba"
    and "injector_run_args self = Inr ia"
  shows "generate_tasks self n = Inr (expected_tasks ba ia B I n, n + B * (I + 2))
         \<and> length (expected_tasks ba ia B I n) = B + B * I
         \<and> concat (map group_ids (expected_tasks ba ia B I n)) =
             concat (map (\<lambda>q. replicate (Suc I) (Uuid (n + q * (I + 2)))) [0..<B])
         \<and> distinct (concat (map jvm_ids (expected_tasks ba ia B I n)))"
proof -
  have "generate_tasks self n = group_tasks self B n"
    using assms(1,3,4) not_composite_literal [OF assms(2)]
    by (simp add: generate_tasks_def getitem_def)
  then show ?thesis
    using group_tasks_eq [OF assms(5,6,4)] length_expected_tasks group_ids_expected_tasks
      jvm_ids_expected_tasks
    by simp
qed

lemma upper_txinjector: "upper ''txinjector'' = ''TXINJECTOR''"
  by (simp add: upper_def upper_char_def)

lemma example_backend_run_args: "backend_run_args example_run = Inr example_backend_args"
  by (simp add: backend_run_args_def full_options_def example_run_def getitem_def dict_get_def
      example_backend_args_def upper_backend lit_def)

lemma example_injector_run_args: "injector_run_args example_run = Inr example_injector_args"
  by (simp add: injector_run_args_def full_options_def example_run_def getitem_def dict_get_def
      example_injector_args_def upper_txinjector lit_def)

lemma example_ids:
  "concat (map group_ids (expected_tasks ba ia 2 3 0)) = map Uuid [0, 0, 0, 0, 5, 5, 5, 5]"
  "concat (map jvm_ids (expected_tasks ba ia 2 3 0)) = map Uuid [1, 2, 3, 4, 6, 7, 8, 9]"
  by (simp_all add: expected_tasks_def expected_group_def group_ids_tagged jvm_ids_tagged
      upt_conv_Cons numeral_2_eq_2 numeral_3_eq_3)

theorem generate_tasks_groups_witness:
  "generate_tasks example_run 0 =
     Inr (expected_tasks example_backend_args example_injector_args 2 3 0, 10)
   \<and> length (expected_tasks example_backend_args example_injector_args 2 3 0) = 8
   \<and> concat (map group_ids (expected_tasks example_backend_args example_injector_args 2 3 0)) =
       map Uuid [0, 0, 0, 0, 5, 5, 5, 5]
   \<and> concat (map jvm_ids (expected_tasks example_backend_args example_injector_args 2 3 0)) =
       map Uuid [1, 2, 3, 4, 6, 7, 8, 9]
   \<and> distinct (concat (map jvm_ids (expected_tasks example_backend_args example_injector_args 2 3 0)))"
proof -
  have t: "map_of (controller example_run) ''type'' = Some (lit ''multi'')"
    by (simp add: example_run_def)
  have c: "chars (lit ''multi'') \<noteq> Some ''composite''"
    by (simp add: lit_def)
  have b: "map_of (backends example_run) ''count'' = Some (PInt (int 2))"
    by (simp add: example_run_def)
  have i: "map_of (injectors example_run) ''count'' = Some (PInt (int 3))"
    by (simp add: example_run_def)
  show ?thesis
    using generate_tasks_groups [OF t c b i example_backend_run_args example_injector_run_args,
        of 0]
    by (simp add: example_ids)
qed

section \<open>Construction\<close>

lemma set_controller_None:
  "set_controller PNone b i =
     Inl (InvalidRunConfigurationException
           (if b = PNone \<and> i = PNone then ''no topology specified''
            else ''controller was not a dict''))"
  by (simp add: set_controller_def)

lemma set_controller_Inr: "set_controller c b i = Inr d \<Longrightarrow> c = PDict d"
  by (cases c) (auto simp: set_controller_def split: if_splits)

lemma set_java_cases:
  "set_java j = Inl IndexError \<and> j = PList [] \<or>
   (\<exists>msg. set_java j = Inl (InvalidRunConfigurationException msg)) \<or>
   (\<exists>d. set_java j = Inr d)"
  by (cases j rule: set_java.cases) simp_all

text \<open>
  C6 (as amended). When \<open>controller\<close> is \<open>None\<close>, construction always ends in an
  exception and never reaches the branch that supplies a default controller: the
  exception is an \<open>InvalidRunConfigurationException\<close> whenever \<open>java\<close> is not the empty
  list (from the first check of \<open>__init__\<close>, from \<open>__set_java__\<close>, or from one of the
  first two guards of \<open>__set_topology__\<close>), and the controller part of
  \<open>__set_topology__\<close> returns only a mapping that was supplied.
\<close>

theorem no_default_controller:
  "(j \<noteq> PList [] \<longrightarrow>
      (\<exists>msg. SpecJBBRun_init PNone b i j jar_arg p pf n =
               Inl (InvalidRunConfigurationException msg)))
   \<and> (\<exists>e. SpecJBBRun_init PNone b i j jar_arg p pf n = Inl e)
   \<and> (\<exists>msg. set_controller PNone b i = Inl (InvalidRunConfigurationException msg))
   \<and> (set_controller c b i = Inr d \<longrightarrow> c = PDict d)"
proof -
  have t: "\<exists>msg. set_topology PNone b i = Inl (InvalidRunConfigurationException msg)"
    by (simp add: set_topology_def set_controller_None)
  then obtain msg where m: "set_topology PNone b i = Inl (InvalidRunConfigurationException msg)"
    by blast
  have a: "j \<noteq> PList [] \<longrightarrow>
      (\<exists>msg. SpecJBBRun_init PNone b i j jar_arg p pf n =
               Inl (InvalidRunConfigurationException msg))"
    using set_java_cases [of j] m
    by (auto simp: SpecJBBRun_init_def uuid4_def)
  have b: "\<exists>e. SpecJBBRun_init PNone b i j jar_arg p pf n = Inl e"
    using set_java_cases [of j] m
    by (auto simp: SpecJBBRun_init_def uuid4_def)
  show ?thesis
    using a b set_controller_None [of b i] set_controller_Inr [of c b i d] by blast
qed

text \<open>With \<open>controller\<close> absent, \<open>backends = 1\<close>, \<open>java = []\<close> and \<open>jar = "x.jar"\<close>,
  \<open>java[0]\<close> in \<open>__set_java__\<close> raises \<open>IndexError\<close>, which is no
  \<open>InvalidRunConfigurationException\<close>.\<close>

theorem init_empty_java_list:
  "SpecJBBRun_init PNone (PInt 1) PNone (PList []) (lit ''x.jar'') (PDict [])
     (lit ''specjbb2015.props'') 0 = Inl IndexError
   \<and> \<not> (\<exists>msg. SpecJBBRun_init PNone (PInt 1) PNone (PList []) (lit ''x.jar'') (PDict [])
     (lit ''specjbb2015.props'') 0 = Inl (InvalidRunConfigurationException msg))"
  by (simp add: SpecJBBRun_init_def uuid4_def lit_def)

theorem no_default_controller_witness:
  "lit ''java'' \<noteq> PList []
   \<and> (\<exists>msg. SpecJBBRun_init PNone (PInt 2) (PInt 3) (lit ''java'') (lit ''x.jar'') (PDict [])
               (lit ''specjbb2015.props'') 0 = Inl (InvalidRunConfigurationException msg))
   \<and> set_controller (PDict [(''type'', lit ''multi'')]) (PInt 2) (PInt 3) =
       Inr [(''type'', lit ''multi'')]
   \<and> PDict [(''type'', lit ''multi'')] = PDict [(''type'', lit ''multi'')]"
proof -
  have n: "lit ''java'' \<noteq> PList []" by (simp add: lit_def)
  have s: "set_controller (PDict [(''type'', lit ''multi'')]) (PInt 2) (PInt 3) =
             Inr [(''type'', lit ''multi'')]"
    by (simp add: set_controller_def has_key_def)
  show ?thesis
    using n s no_default_controller [of "lit ''java''" "PInt 2" "PInt 3" "lit ''x.jar''" "PDict []"
        "lit ''specjbb2015.props''" 0 "PDict [(''type'', lit ''multi'')]" "[(''type'', lit ''multi'')]"]
    by simp
qed

lemma init_Inr_jar:
  "SpecJBBRun_init c b i j jar_arg p pf n = Inr (r, n') \<Longrightarrow> jar r = jar_arg \<and> is_str jar_arg"
proof -
  assume a: "SpecJBBRun_init c b i j jar_arg p pf n = Inr (r, n')"
  show ?thesis
  proof (cases "j = PNone \<or> jar_arg = PNone \<or> \<not> is_str jar_arg")
    case True
    with a show ?thesis by (simp add: SpecJBBRun_init_def)
  next
    case False
    show ?thesis
    proof (cases "set_java j")
      case (Inl e)
      with a False show ?thesis by (simp add: SpecJBBRun_init_def uuid4_def)
    next
      case (Inr d)
      show ?thesis
      proof (cases "set_topology c b i")
        case (Inl e)
        with a False Inr show ?thesis by (simp add: SpecJBBRun_init_def uuid4_def)
      next
        case topo: (Inr t)
        obtain x y z where "t = (x, y, z)" by (cases t) auto
        with a False Inr topo show ?thesis
          by (auto simp: SpecJBBRun_init_def uuid4_def)
      qed
    qed
  qed
qed

text \<open>
  C5 (as amended). The stored \<open>jar\<close> of a constructed run is the \<open>jar\<close> argument, and
  it is a string; construction with \<open>jar\<close> absent or not a string raises
  \<open>InvalidRunConfigurationException\<close>. Nothing is said of the empty string.
\<close>

theorem init_jar_string:
  "(SpecJBBRun_init c b i j jar_arg p pf n = Inr (r, n') \<longrightarrow> jar r = jar_arg \<and> is_str jar_arg)
   \<and> (jar_arg = PNone \<or> \<not> is_str jar_arg \<longrightarrow>
        SpecJBBRun_init c b i j jar_arg p pf n =
          Inl (InvalidRunConfigurationException ''Run was invalid''))"
proof -
  have "jar_arg = PNone \<or> \<not> is_str jar_arg \<longrightarrow>
        SpecJBBRun_init c b i j jar_arg p pf n =
          Inl (InvalidRunConfigurationException ''Run was invalid'')"
    by (simp add: SpecJBBRun_init_def)
  then show ?thesis
    using init_Inr_jar [of c b i j jar_arg p pf n r n'] by blast
qed

lemma init_empty_jar:
  "SpecJBBRun_init (PDict [(''type'', lit ''composite'')]) PNone PNone (lit ''java'') (lit '''')
     (PDict []) (lit ''specjbb2015.props'') 0 = Inr (empty_jar_run, 1)"
  by (simp add: SpecJBBRun_init_def uuid4_def set_topology_def set_controller_def
      set_backends_def set_injectors_def has_key_def empty_jar_run_def lit_def)

text \<open>Construction with the empty string as \<open>jar\<close> succeeds and stores it.\<close>

theorem init_accepts_empty_jar:
  "SpecJBBRun_init (PDict [(''type'', lit ''composite'')]) PNone PNone (lit ''java'') (lit '''')
     (PDict []) (lit ''specjbb2015.props'') 0 = Inr (empty_jar_run, 1)
   \<and> chars (jar empty_jar_run) = Some ''''"
  using init_empty_jar by (simp add: empty_jar_run_def lit_def)

theorem init_jar_string_witness:
  "jar empty_jar_run = lit '''' \<and> is_str (lit '''')
   \<and> SpecJBBRun_init (PDict [(''type'', lit ''composite'')]) PNone PNone (lit ''java'') PNone
        (PDict []) (lit ''specjbb2015.props'') 0 =
        Inl (InvalidRunConfigurationException ''Run was invalid'')
   \<and> SpecJBBRun_init (PDict [(''type'', lit ''composite'')]) PNone PNone (lit ''java'') (PInt 5)
        (PDict []) (lit ''specjbb2015.props'') 0 =
        Inl (InvalidRunConfigurationException ''Run was invalid'')"
  using init_empty_jar
    init_jar_string [of "PDict [(''type'', lit ''composite'')]" PNone PNone "lit ''java''"
      "lit ''''" "PDict []" "lit ''specjbb2015.props''" 0 empty_jar_run 1]
    init_jar_string [of "PDict [(''type'', lit ''composite'')]" PNone PNone "lit ''java''" PNone
      "PDict []" "lit ''specjbb2015.props''" 0]
    init_jar_string [of "PDict [(''type'', lit ''composite'')]" PNone PNone "lit ''java''" "PInt 5"
      "PDict []" "lit ''specjbb2015.props''" 0]
  by (simp add: lit_def)

lemma map_of_setitem:
  "map_of (setitem d k v) k' = (if k' = k then Some v else map_of d k')"
  by (induction d) auto

lemma JvmRunOptions_dict_path:
  assumes "JvmRunOptions_init (PDict d) = Inr r"
  shows "\<exists>k s. map_of r ''path'' = Some (PStr k s)"
proof (cases "map_of d ''path''")
  case None
  with assms show ?thesis by simp
next
  case (Some p)
  with assms obtain k s where p: "p = PStr k s"
    by (cases p) (auto split: if_splits)
  show ?thesis
  proof (cases "map_of d ''options''")
    case None
    with assms Some p show ?thesis by (auto simp: map_of_setitem)
  next
    case os: (Some os)
    with assms Some p show ?thesis by (auto split: if_splits)
  qed
qed

text \<open>
  C9 (as amended). A bare string is stored as the path as it is, empty or not; of a
  sequence with a first element, that element is the path, whatever it is; a mapping
  that \<open>JvmRunOptions\<close> accepts has a string under \<open>path\<close>, and \<open>__set_java__\<close> stores a
  mapping as it is.
\<close>

theorem java_path_normalised:
  "JvmRunOptions_init (PStr k s) = Inr [(''path'', PStr k s), (''options'', PList [])]
   \<and> set_java (PStr k s) = Inr [(''path'', PStr k s), (''options'', PList [])]
   \<and> JvmRunOptions_init (PList (x # xs)) = Inr [(''path'', x), (''options'', PList xs)]
   \<and> set_java (PList (x # xs)) = Inr [(''path'', x), (''options'', PList xs)]
   \<and> (JvmRunOptions_init (PDict d) = Inr r \<longrightarrow> (\<exists>k' s'. map_of r ''path'' = Some (PStr k' s')))
   \<and> set_java (PDict d) = Inr d"
  using JvmRunOptions_dict_path [of d r] by simp

text \<open>The empty string is accepted as a path by both normalisations.\<close>

theorem empty_path_accepted:
  "JvmRunOptions_init (lit '''') = Inr [(''path'', lit ''''), (''options'', PList [])]
   \<and> set_java (lit '''') = Inr [(''path'', lit ''''), (''options'', PList [])]
   \<and> chars (lit '''') = Some ''''"
  by (simp add: lit_def)

theorem java_path_normalised_witness:
  "JvmRunOptions_init (PDict [(''path'', lit ''java'')]) =
     Inr [(''path'', lit ''java''), (''options'', PList [])]
   \<and> (\<exists>k' s'. map_of [(''path'', lit ''java''), (''options'', PList [])] ''path'' =
         Some (PStr k' s'))
   \<and> set_java (PList [PInt 5]) = Inr [(''path'', PInt 5), (''options'', PList [])]"
proof -
  have a: "JvmRunOptions_init (PDict [(''path'', lit ''java'')]) =
     Inr [(''path'', lit ''java''), (''options'', PList [])]"
    by (simp add: lit_def)
  show ?thesis
    using a java_path_normalised [of Interned "''java''" "PInt 5" "[]"
        "[(''path'', lit ''java'')]" "[(''path'', lit ''java''), (''options'', PList [])]"]
    by simp
qed

text \<open>
  C10. Construction with a dictionary as \<open>java\<close>, a string as \<open>jar\<close>, a controller
  mapping with a \<open>type\<close>, and backends and injectors each an integer, a mapping or
  absent, succeeds and stores the dictionary as it is; when the dictionary has no
  \<open>path\<close>, or a \<open>path\<close> and no \<open>options\<close>, the failure comes from \<open>_full_options\<close> as a
  \<open>KeyError\<close> of that key.
\<close>

theorem init_java_dict_unchecked:
  assumes "is_str jar_arg"
    and "has_key c ''type''"
    and "is_int b \<or> is_dict b \<or> b = PNone"
    and "is_int i \<or> is_dict i \<or> i = PNone"
  shows "\<exists>r. SpecJBBRun_init (PDict c) b i (PDict d) jar_arg p pf n = Inr (r, Suc n)
           \<and> java r = d
           \<and> (\<not> has_key d ''path'' \<longrightarrow> (\<forall>od. full_options r od = Inl (KeyError ''path'')))
           \<and> (has_key d ''path'' \<and> \<not> has_key d ''options'' \<longrightarrow>
                (\<forall>od. full_options r od = Inl (KeyError ''options'')))"
proof -
  have j: "jar_arg \<noteq> PNone" using assms(1) by auto
  have "\<exists>bd. set_backends b = Inr bd"
    using assms(3) by (simp add: set_backends_def) blast
  then obtain bd where bd: "set_backends b = Inr bd" by blast
  have "\<exists>idd. set_injectors i = Inr idd"
    using assms(4) by (simp add: set_injectors_def) blast
  then obtain idd where idd: "set_injectors i = Inr idd" by blast
  have c: "set_controller (PDict c) b i = Inr c"
    using assms(2) by (simp add: set_controller_def)
  let ?r = "\<lparr>jar = jar_arg, props = p, props_file = pf, run_id = Uuid n, java = d,
             controller = c, backends = bd, injectors = idd\<rparr>"
  have "SpecJBBRun_init (PDict c) b i (PDict d) jar_arg p pf n = Inr (?r, Suc n)"
    using assms(1) j bd idd c by (simp add: SpecJBBRun_init_def uuid4_def set_topology_def)
  moreover have "\<not> has_key d ''path'' \<longrightarrow> (\<forall>od. full_options ?r od = Inl (KeyError ''path''))"
    by (simp add: full_options_def getitem_def has_key_def)
  moreover have "has_key d ''path'' \<and> \<not> has_key d ''options'' \<longrightarrow>
      (\<forall>od. full_options ?r od = Inl (KeyError ''options''))"
    by (auto simp: full_options_def getitem_def has_key_def)
  ultimately show ?thesis by auto
qed

theorem init_java_dict_unchecked_witness:
  "\<exists>r. SpecJBBRun_init (PDict [(''type'', lit ''multi'')]) (PInt 2) PNone (PDict [])
          (lit ''x.jar'') (PDict []) (lit ''p.props'') 0 = Inr (r, Suc 0)
        \<and> java r = []
        \<and> full_options r [(''type'', lit ''backend'')] = Inl (KeyError ''path'')"
proof -
  have 1: "is_str (lit ''x.jar'')" by (simp add: lit_def)
  have 2: "has_key [(''type'', lit ''multi'')] ''type''" by (simp add: has_key_def)
  have 3: "is_int (PInt 2) \<or> is_dict (PInt 2) \<or> PInt 2 = PNone" by simp
  have 4: "is_int PNone \<or> is_dict PNone \<or> PNone = PNone" by simp
  have 5: "\<not> has_key ([] :: dict) ''path''" by (simp add: has_key_def)
  show ?thesis
    using init_java_dict_unchecked [OF 1 2 3 4, of "[]" "PDict []" "lit ''p.props''" 0] 5
    by auto
qed

section \<open>Validation\<close>

lemma args_in_template_iff: "args_in_template t xs = (set xs \<subseteq> set (args t))"
  by (induction xs) auto

lemma args_have_default_ok:
  assumes "\<forall>a \<in> set xs. has_key (run_args r) a \<or> (\<exists>dp. default_props t = Some dp \<and> has_key dp a)"
  shows "args_have_default t r xs = Inr True"
  using assms by (induction xs) auto

lemma check_runs_ok:
  assumes "\<forall>r \<in> set rs. \<exists>t. map_of td (template_type r) = Some t
             \<and> set (map fst (run_args r)) \<subseteq> set (args t)
             \<and> (\<forall>a \<in> set (args t). has_key (run_args r) a
                    \<or> (\<exists>dp. default_props t = Some dp \<and> has_key dp a))"
  shows "check_runs td rs = Inr True"
  using assms
proof (induction rs)
  case Nil
  show ?case by simp
next
  case (Cons r rs)
  then obtain t where t: "map_of td (template_type r) = Some t"
      "set (map fst (run_args r)) \<subseteq> set (args t)"
      "\<forall>a \<in> set (args t). has_key (run_args r) a
          \<or> (\<exists>dp. default_props t = Some dp \<and> has_key dp a)"
    by auto
  have "check_runs td rs = Inr True" using Cons by simp
  then show ?case
    using t(1,2) args_have_default_ok [OF t(3)]
    by (simp add: getitem_def args_in_template_iff)
qed

lemma check_templates_ok:
  assumes "\<forall>t \<in> set ts.
             (\<forall>m. translation_map t = Some m \<longrightarrow> set (map fst m) \<subseteq> set (args t))
           \<and> (\<forall>m. annotation_map t = Some m \<longrightarrow> set (map fst m) \<subseteq> set (args t))"
  shows "check_templates ts"
  using assms
  by (induction ts) (auto simp: keys_in_args_def args_in_template_iff split: option.splits)

text \<open>
  C8. For a document that the schema accepts, returning the document \<open>d\<close> with the
  defaults filled in: when every run names a template of \<open>d\<close>, supplies only arguments
  that the template declares, and every declared argument is supplied by the run or is
  a key of the template's \<open>default_props\<close>, and the keys of every template's translations
  and annotations are among its declared arguments, \<open>validate\<close> returns \<open>d\<close>.
\<close>

theorem validate_accepts:
  assumes "SpectateConfig u = Inr d"
    and "\<forall>r \<in> set (RunList d). \<exists>t. map_of (TemplateData d) (template_type r) = Some t
             \<and> set (map fst (run_args r)) \<subseteq> set (args t)
             \<and> (\<forall>a \<in> set (args t). has_key (run_args r) a
                    \<or> (\<exists>dp. default_props t = Some dp \<and> has_key dp a))"
    and "\<forall>t \<in> set (map snd (TemplateData d)).
             (\<forall>m. translation_map t = Some m \<longrightarrow> set (map fst m) \<subseteq> set (args t))
           \<and> (\<forall>m. annotation_map t = Some m \<longrightarrow> set (map fst m) \<subseteq> set (args t))"
  shows "validate u = Inr (Some d)"
  using assms(1) check_runs_ok [OF assms(2)] check_templates_ok [OF assms(3)]
  by (simp add: validate_def)

lemma example_schema: "SpectateConfig example_config = Inr example_defaulted"
  by (simp add: SpectateConfig_def example_config_def example_defaulted_def example_template_def
      TemplateSchema_def with_defaults_def run_type_ok_def has_entries_def)

theorem validate_accepts_witness:
  "SpectateConfig example_config = Inr example_defaulted
   \<and> validate example_config = Inr (Some example_defaulted)"
proof -
  have r: "\<forall>r \<in> set (RunList example_defaulted).
             \<exists>t. map_of (TemplateData example_defaulted) (template_type r) = Some t
             \<and> set (map fst (run_args r)) \<subseteq> set (args t)
             \<and> (\<forall>a \<in> set (args t). has_key (run_args r) a
                    \<or> (\<exists>dp. default_props t = Some dp \<and> has_key dp a))"
    by (simp add: example_defaulted_def example_template_def has_key_def)
  have t: "\<forall>t \<in> set (map snd (TemplateData example_defaulted)).
             (\<forall>m. translation_map t = Some m \<longrightarrow> set (map fst m) \<subseteq> set (args t))
           \<and> (\<forall>m. annotation_map t = Some m \<longrightarrow> set (map fst m) \<subseteq> set (args t))"
    by (simp add: example_defaulted_def example_template_def)
  show ?thesis
    using example_schema validate_accepts [OF example_schema r t] by simp
qed

text \<open>
  C3. The template declares \<open>a\<close> and has no \<open>default_props\<close>; the run supplies no
  argument. The second rule fails, and \<open>validate\<close> raises \<open>KeyError\<close> from
  \<open>t["default_props"]\<close>, where a failed rule is specified to give \<open>None\<close>. With a
  \<open>default_props\<close> in the template that has the key \<open>b\<close> and not \<open>a\<close>, the same document
  does return \<open>None\<close>.
\<close>

theorem validate_raises_without_default_props:
  "validate no_defaults_config = Inl (KeyError ''default_props'')
   \<and> validate other_defaults_config = Inr None"
  by (simp add: validate_def SpectateConfig_def no_defaults_config_def other_defaults_config_def
      TemplateSchema_def with_defaults_def run_type_ok_def has_entries_def getitem_def
      has_key_def)

section \<open>Running\<close>

lemma upper_composite: "upper ''composite'' = ''COMPOSITE''"
  by (simp add: upper_def upper_char_def)

lemma open_default_file:
  "py_open default_file_only (lit ''specjbb2015.props'') = Inr (lit ''specjbb2015.props'')"
  by (simp add: py_open_def default_file_only_def lit_def)

lemma heap_composite_init:
  "SpecJBBRun_init (PDict [(''type'', PStr Heap ''composite'')]) PNone PNone (lit ''java'')
     (lit ''x.jar'') (PDict []) (lit ''specjbb2015.props'') 0 = Inr (heap_composite_run, 1)"
  by (simp add: SpecJBBRun_init_def uuid4_def set_topology_def set_controller_def
      set_backends_def set_injectors_def has_key_def heap_composite_run_def lit_def)

lemma heap_composite_args:
  "controller_run_args heap_composite_run = Inr (plain_args ''COMPOSITE'')"
  "backend_run_args heap_composite_run = Inr (plain_args ''BACKEND'')"
  "injector_run_args heap_composite_run = Inr (plain_args ''TXINJECTOR'')"
  by (simp_all add: controller_run_args_def backend_run_args_def injector_run_args_def
      full_options_def heap_composite_run_def getitem_def dict_get_def plain_args_def
      upper_composite upper_backend upper_txinjector lit_def)

lemma heap_composite_fields:
  "getitem (controller heap_composite_run) ''type'' = Inr (PStr Heap ''composite'')"
  "getitem (backends heap_composite_run) ''count'' = Inr (PInt 1)"
  "getitem (injectors heap_composite_run) ''count'' = Inr (PInt 1)"
  "props_file heap_composite_run = lit ''specjbb2015.props''"
  "props heap_composite_run = PDict []"
  by (simp_all add: heap_composite_run_def getitem_def)

lemma heap_composite_tasks:
  "generate_tasks heap_composite_run 1 =
     Inr ([tagged (plain_args ''BACKEND'') (Uuid 1) (Uuid 2),
           tagged (plain_args ''TXINJECTOR'') (Uuid 1) (Uuid 3)], 4)"
proof -
  have c: "map_of (injectors heap_composite_run) ''count'' = Some (PInt (int 1))"
    by (simp add: heap_composite_run_def)
  have e: "expected_tasks (plain_args ''BACKEND'') (plain_args ''TXINJECTOR'') 1 1 1 =
             [tagged (plain_args ''BACKEND'') (Uuid 1) (Uuid 2),
              tagged (plain_args ''TXINJECTOR'') (Uuid 1) (Uuid 3)]"
    by (simp add: expected_tasks_def expected_group_def numeral_2_eq_2 numeral_3_eq_3)
  have g: "group_tasks heap_composite_run (Suc 0) 1 =
     Inr ([tagged (plain_args ''BACKEND'') (Uuid 1) (Uuid 2),
           tagged (plain_args ''TXINJECTOR'') (Uuid 1) (Uuid 3)], 4)"
    using group_tasks_eq [OF heap_composite_args(2) heap_composite_args(3) c, of 1 1] e
    by simp
  have "generate_tasks heap_composite_run 1 = group_tasks heap_composite_run (Suc 0) 1"
    by (simp add: generate_tasks_def heap_composite_fields is_literal_def
        del: One_nat_def group_tasks.simps)
  with g show ?thesis by (simp only:)
qed

text \<open>
  C4. The controller type of this run is a string \<open>composite\<close> that is not the interned
  literal, and the default properties file can be written, so \<open>is "composite"\<close> is false in \<open>_generate_tasks\<close> and in \<open>run\<close>: two tasks
  are generated, and \<open>run\<close> starts the controller, makes a pool of two workers, runs
  the backend and the injector in it and stops the controller.
\<close>

theorem composite_by_value_runs_pool:
  "SpecJBBRun_init (PDict [(''type'', PStr Heap ''composite'')]) PNone PNone (lit ''java'')
     (lit ''x.jar'') (PDict []) (lit ''specjbb2015.props'') 0 = Inr (heap_composite_run, 1)
   \<and> map_option chars (map_of (controller heap_composite_run) ''type'') =
       Some (Some ''composite'')
   \<and> generate_tasks heap_composite_run 1 =
       Inr ([tagged (plain_args ''BACKEND'') (Uuid 1) (Uuid 2),
             tagged (plain_args ''TXINJECTOR'') (Uuid 1) (Uuid 3)], 4)
   \<and> run default_file_only str_of_string heap_composite_run 1 =
       ([OpenTruncate (lit ''specjbb2015.props''),
         WriteIni (lit ''specjbb2015.props'') [(''SPECtate'', [])],
         ProcStart (TaskRunner (map Arg (plain_args ''COMPOSITE''))),
         PoolCreate 2,
         PoolMap [tagged (plain_args ''BACKEND'') (Uuid 1) (Uuid 2),
                  tagged (plain_args ''TXINJECTOR'') (Uuid 1) (Uuid 3)],
         ProcStop (TaskRunner (map Arg (plain_args ''COMPOSITE'')))], None)"
proof -
  have t: "map_option chars (map_of (controller heap_composite_run) ''type'') =
       Some (Some ''composite'')"
    by (simp add: heap_composite_run_def)
  have o: "py_open default_file_only (lit ''specjbb2015.props'') =
             Inr (lit ''specjbb2015.props'')"
    by (rule open_default_file)
  have r: "run default_file_only str_of_string heap_composite_run 1 =
       ([OpenTruncate (lit ''specjbb2015.props''),
         WriteIni (lit ''specjbb2015.props'') [(''SPECtate'', [])],
         ProcStart (TaskRunner (map Arg (plain_args ''COMPOSITE''))),
         PoolCreate 2,
         PoolMap [tagged (plain_args ''BACKEND'') (Uuid 1) (Uuid 2),
                  tagged (plain_args ''TXINJECTOR'') (Uuid 1) (Uuid 3)],
         ProcStop (TaskRunner (map Arg (plain_args ''COMPOSITE'')))], None)"
    by (simp add: run_def heap_composite_fields o heap_composite_args heap_composite_tasks
        is_literal_def del: One_nat_def)
  show ?thesis
    using heap_composite_init t heap_composite_tasks r by simp
qed






lemma is_literal_lit: "is_literal (lit s) t = (s = t)"
  by (simp add: is_literal_def lit_def)












section \<open>The interpolation check\<close>

lemma after_key_shorter:
  assumes "after_key cs = Some rest"
  shows "length rest < length cs"
proof (cases cs)
  case Nil
  with assms show ?thesis by (simp add: after_key_def)
next
  case (Cons x xs)
  let ?d = "dropWhile (\<lambda>c. c \<noteq> CHR '')'') xs"
  have le: "length ?d \<le> length xs" by (rule length_dropWhile_le)
  from assms Cons have e:
    "(case ?d of b # c # rest' \<Rightarrow> if c = CHR ''s'' then Some rest' else None | _ \<Rightarrow> None) =
       Some rest"
    by (simp add: after_key_def split: if_splits)
  have "\<exists>b c. ?d = b # c # rest"
  proof (cases ?d)
    case Nil
    from e show ?thesis unfolding Nil by simp
  next
    case outer: (Cons b ys)
    show ?thesis
    proof (cases ys)
      case Nil
      from e show ?thesis unfolding outer Nil by simp
    next
      case inner: (Cons c zs)
      from e have "rest = zs" unfolding outer inner by (simp split: if_splits)
      then show ?thesis unfolding outer inner by simp
    qed
  qed
  then obtain b c where "?d = b # c # rest" by blast
  with le have "length rest < length xs" by simp
  with Cons show ?thesis by simp
qed

lemma remove_keys_upto_fuel:
  "length cs \<le> k \<Longrightarrow> length cs \<le> k' \<Longrightarrow> remove_keys_upto k cs = remove_keys_upto k' cs"
proof (induction cs arbitrary: k k' rule: length_induct)
  case (1 cs)
  note IH = "1.IH" [rule_format]
  show ?case
  proof (cases cs)
    case Nil
    then show ?thesis by (cases k; cases k') simp_all
  next
    case (Cons c cs')
    from "1.prems" Cons obtain j j' where k: "k = Suc j" "k' = Suc j'"
      by (cases k; cases k') simp_all
    from "1.prems" Cons k have j: "length cs' \<le> j" "length cs' \<le> j'" by simp_all
    have tl: "remove_keys_upto j cs' = remove_keys_upto j' cs'"
      by (rule IH) (use Cons j in simp_all)
    show ?thesis
    proof (cases "after_key cs'")
      case None
      with tl show ?thesis unfolding Cons k by simp
    next
      case (Some rest)
      have sh: "length rest < length cs'" by (rule after_key_shorter [OF Some])
      have "remove_keys_upto j rest = remove_keys_upto j' rest"
        by (rule IH) (use Cons j sh in simp_all)
      with tl Some show ?thesis unfolding Cons k by simp
    qed
  qed
qed

text \<open>More fuel than the length of the text changes nothing: the fuel of \<open>remove_keys\<close>
  never runs out before the text does.\<close>

lemma remove_keys_fuel: "length cs \<le> k \<Longrightarrow> remove_keys_upto k cs = remove_keys cs"
  unfolding remove_keys_def by (rule remove_keys_upto_fuel) simp_all

lemma remove_keys_Cons:
  "remove_keys (c # cs) =
     (if c = CHR ''%'' then
        (case after_key cs of Some rest \<Rightarrow> remove_keys rest | None \<Rightarrow> c # remove_keys cs)
      else c # remove_keys cs)"
proof (cases "after_key cs")
  case None
  then show ?thesis by (simp add: remove_keys_def)
next
  case (Some rest)
  have "length rest \<le> length cs" using after_key_shorter [OF Some] by simp
  then have "remove_keys_upto (length cs) rest = remove_keys rest"
    by (rule remove_keys_fuel)
  with Some show ?thesis by (simp add: remove_keys_def)
qed

end
